theory Spec2Isabelle
  imports Main
begin

section \<open>The JMC front end: tokenizer, argument parser, class expander\<close>

text \<open>
  A shallow embedding of \<^verbatim>\<open>src/jmc/tokenizer.py\<close> and
  \<^verbatim>\<open>src/jmc/flow_control/class_.py\<close>.

  Python's \<^verbatim>\<open>str\<close> is modelled by \<^typ>\<open>string\<close>: one \<^typ>\<open>char\<close> stands for
  one code point below 256. Python's unbounded integers are \<^typ>\<open>int\<close>. Every
  exception the source can raise is a value of the type \<open>error\<close>; a function that may
  raise returns \<open>error + 'a\<close> with \<open>Inl\<close> for the exception.
\<close>

subsection \<open>Exceptions\<close>

text \<open>
  The message of a \<^verbatim>\<open>JMCSyntaxException\<close> is an f-string
  \<^verbatim>\<open>In {file_path}\n{what} at line {L} col {C}.\n{excerpt} <-\<close>. The model keeps
  its parts apart: the file path, what is reported, the line, the column (absent in the
  message for a line break inside a string literal) and the source excerpt. The other
  constructors are exceptions of Python itself: an index out of range, an attribute
  read on \<^verbatim>\<open>None\<close>, a local variable read before its first assignment, an
  unpacking of the wrong length, and the two exceptions that \<^verbatim>\<open>ast.literal_eval\<close>
  raises on a malformed literal.
\<close>

datatype message
  = Unexpected_semicolon
  | Unescaped_line_break
  | Unexpected_bracket
  | Bracket_never_closed
  | Expected_semicolon
  | Expected_round
  | Positional_follows_keyword
  | Invalid_key string
  | Empty_key
  | Duplicated_key string
  | Expected_curly
  | Unexpected_token
  | Duplicated_equal_sign

datatype error
  = JMCSyntaxException string message int "int option" string
  | IndexError
  | AttributeError
  | NameError
  | ValueError
  | SyntaxError

subsection \<open>Python's list and string operations\<close>

text \<open>\<^verbatim>\<open>xs[i]\<close>: a negative index counts from the end; out of range raises.\<close>

definition py_index :: "'a list \<Rightarrow> int \<Rightarrow> error + 'a" where
  "py_index xs i =
     (if 0 \<le> i \<and> i < int (length xs) then Inr (xs ! nat i)
      else if i < 0 \<and> - int (length xs) \<le> i then Inr (xs ! nat (int (length xs) + i))
      else Inl IndexError)"

text \<open>\<^verbatim>\<open>xs[:n]\<close>: a negative bound counts from the end; slicing never raises.\<close>

definition py_slice_to :: "'a list \<Rightarrow> int \<Rightarrow> 'a list" where
  "py_slice_to xs n = (if 0 \<le> n then take (nat n) xs else take (nat (int (length xs) + n)) xs)"

text \<open>\<^verbatim>\<open>s.split(c)\<close> for a separator of one character.\<close>

fun split_on :: "'a \<Rightarrow> 'a list \<Rightarrow> 'a list list" where
  "split_on c [] = [[]]"
| "split_on c (x # xs) =
     (if x = c then [] # split_on c xs
      else (case split_on c xs of [] \<Rightarrow> [[x]] | ys # yss \<Rightarrow> (x # ys) # yss))"

text \<open>\<^verbatim>\<open>s.find(c)\<close> and \<^verbatim>\<open>s.rfind(c)\<close>: the first and the last index of \<open>c\<close>, or -1.\<close>

fun find_char :: "'a \<Rightarrow> 'a list \<Rightarrow> int" where
  "find_char c [] = -1"
| "find_char c (x # xs) =
     (if x = c then 0 else (let r = find_char c xs in if r < 0 then -1 else r + 1))"

definition rfind_char :: "'a \<Rightarrow> 'a list \<Rightarrow> int" where
  "rfind_char c xs =
     (let r = find_char c (rev xs) in if r < 0 then -1 else int (length xs) - 1 - r)"

text \<open>\<^verbatim>\<open>s[1:-1]\<close>, \<^verbatim>\<open>s[1:]\<close> and \<^verbatim>\<open>s[:-1]\<close> are \<open>butlast (tl s)\<close>, \<open>tl s\<close> and
  \<open>butlast s\<close>, also on the short strings where the slices are empty.\<close>

definition startswith :: "'a list \<Rightarrow> 'a list \<Rightarrow> bool" where
  "startswith s p = (take (length p) s = p)"

definition endswith :: "'a list \<Rightarrow> 'a list \<Rightarrow> bool" where
  "endswith s p = (length p \<le> length s \<and> drop (length s - length p) s = p)"

text \<open>
  \<^verbatim>\<open>re.match(r'\s+', char)\<close> on one character and \<^verbatim>\<open>str.strip()\<close> use the same
  set, here cut to the code points below 256: tab to carriage return, the four
  separators 28 to 31, space, next line (133) and the no-break space (160).
\<close>

definition is_whitespace :: "char \<Rightarrow> bool" where
  "is_whitespace c =
     (let n = (of_char c :: nat)
      in (9 \<le> n \<and> n \<le> 13) \<or> (28 \<le> n \<and> n \<le> 32) \<or> n = 133 \<or> n = 160)"

definition strip :: "string \<Rightarrow> string" where
  "strip s = rev (dropWhile is_whitespace (rev (dropWhile is_whitespace s)))"

subsection \<open>Tokens\<close>

text \<open>The members of the enumeration \<^verbatim>\<open>TokenType\<close>, prefixed by \<open>T_\<close>.\<close>

datatype TokenType
  = T_keyword
  | T_paren
  | T_paren_round
  | T_paren_square
  | T_paren_curly
  | T_string
  | T_comment
  | T_comma
  | T_func

text \<open>
  The dataclass \<^verbatim>\<open>Token\<close>. The field \<^verbatim>\<open>length\<close> is \<open>length_tok\<close>; it is not an
  argument of the constructor but set by \<^verbatim>\<open>__post_init__\<close>, which the function
  \<open>Token\<close> below models. The tokenizer passes its own \<^verbatim>\<open>state\<close>, of type
  \<^verbatim>\<open>Optional[TokenType]\<close>, as the token type, so the field has that type here.
\<close>

record Token =
  token_type :: "TokenType option"
  line :: int
  col :: int
  string :: string
  length_tok :: int

definition Token :: "TokenType option \<Rightarrow> int \<Rightarrow> int \<Rightarrow> string \<Rightarrow> Token" where
  "Token tt l c s =
     \<lparr>token_type = tt, line = l, col = c, string = s,
      length_tok = (if tt = Some T_string then int (length s) + 2 else int (length s))\<rparr>"

record Pos =
  pos_line :: int
  pos_col :: int

subsection \<open>The tokenizer object\<close>

text \<open>
  The attributes of a \<^verbatim>\<open>Tokenizer\<close>. \<^verbatim>\<open>self.line\<close>, \<^verbatim>\<open>self.col\<close> and
  \<^verbatim>\<open>self.keywords\<close> are \<open>self_line\<close>, \<open>self_col\<close> and \<open>keywords_buf\<close>; the other
  fields have the names of the source.
\<close>

record tokenizer =
  raw_string :: string
  file_string :: string
  file_path :: string
  self_line :: int
  self_col :: int
  state :: "TokenType option"
  token :: string
  token_pos :: "Pos option"
  keywords_buf :: "Token list"
  list_of_tokens :: "Token list list"
  quote :: "char option"
  is_escaped :: bool
  paren :: "char option"
  r_paren :: "char option"
  paren_count :: "int option"
  is_string :: bool
  is_slash :: bool

abbreviation NEW_LINE :: char where "NEW_LINE \<equiv> CHR 0x0A"
abbreviation BACKSLASH :: char where "BACKSLASH \<equiv> CHR 0x5C"
abbreviation SEMICOLON :: char where "SEMICOLON \<equiv> CHR '';''"
abbreviation COMMA :: char where "COMMA \<equiv> CHR '',''"
abbreviation HASH :: char where "HASH \<equiv> CHR ''#''"
abbreviation SLASH :: char where "SLASH \<equiv> CHR ''/''"
abbreviation SINGLE :: char where "SINGLE \<equiv> CHR 0x27"
abbreviation DOUBLE :: char where "DOUBLE \<equiv> CHR 0x22"
abbreviation L_ROUND :: char where "L_ROUND \<equiv> CHR ''(''"
abbreviation R_ROUND :: char where "R_ROUND \<equiv> CHR '')''"
abbreviation L_SQUARE :: char where "L_SQUARE \<equiv> CHR ''[''"
abbreviation R_SQUARE :: char where "R_SQUARE \<equiv> CHR '']''"
abbreviation L_CURLY :: char where "L_CURLY \<equiv> CHR ''{''"
abbreviation R_CURLY :: char where "R_CURLY \<equiv> CHR ''}''"

text \<open>The dictionary \<^verbatim>\<open>PAREN_PAIR\<close>, read only at the three opening brackets.\<close>

definition PAREN_PAIR :: "char \<Rightarrow> char option" where
  "PAREN_PAIR c =
     (if c = L_CURLY then Some R_CURLY
      else if c = L_SQUARE then Some R_SQUARE
      else if c = L_ROUND then Some R_ROUND
      else None)"

text \<open>
  The excerpt of a message: \<^verbatim>\<open>self.raw_string.split('\n')[l - 1]\<close>, cut to its first
  \<open>n\<close> characters when a bound is given. The index is evaluated while the message is
  built, so a line that does not exist raises \<^verbatim>\<open>IndexError\<close> in place of the syntax
  exception.
\<close>

definition syntax_exception ::
  "tokenizer \<Rightarrow> message \<Rightarrow> int \<Rightarrow> int option \<Rightarrow> int \<Rightarrow> int option \<Rightarrow> error" where
  "syntax_exception self m l c el n =
     (case py_index (split_on NEW_LINE (raw_string self)) (el - 1) of
        Inl e \<Rightarrow> e
      | Inr ln \<Rightarrow>
          JMCSyntaxException (file_path self) m l c
            (case n of None \<Rightarrow> ln | Some k \<Rightarrow> py_slice_to ln k))"

text \<open>\<^verbatim>\<open>append_token\<close> reads \<^verbatim>\<open>self.token_pos.line\<close>, which raises on \<^verbatim>\<open>None\<close>.\<close>

definition append_token :: "tokenizer \<Rightarrow> error + tokenizer" where
  "append_token self =
     (case token_pos self of
        None \<Rightarrow> Inl AttributeError
      | Some p \<Rightarrow>
          Inr (self\<lparr>keywords_buf :=
                       keywords_buf self @ [Token (state self) (pos_line p) (pos_col p) (token self)],
                    token := [], token_pos := None, state := None\<rparr>))"

definition append_keywords :: "tokenizer \<Rightarrow> tokenizer" where
  "append_keywords self =
     (if keywords_buf self \<noteq> []
      then self\<lparr>list_of_tokens := list_of_tokens self @ [keywords_buf self], keywords_buf := []\<rparr>
      else self)"

subsection \<open>One iteration of the scanning loop\<close>

text \<open>
  The body of \<^verbatim>\<open>for char in string\<close> either runs to its last statement, which
  records whether the character was a slash, or leaves by \<^verbatim>\<open>continue\<close>, which
  skips that statement.
\<close>

datatype flow = Continue tokenizer | Next tokenizer

definition end_of_body :: "char \<Rightarrow> flow \<Rightarrow> tokenizer" where
  "end_of_body char f =
     (case f of Continue self \<Rightarrow> self | Next self \<Rightarrow> self\<lparr>is_slash := (char = SLASH)\<rparr>)"

text \<open>The branch \<^verbatim>\<open>if char == Re.NEW_LINE\<close>.\<close>

definition on_new_line :: "tokenizer \<Rightarrow> char \<Rightarrow> error + tokenizer" where
  "on_new_line self char =
     (let advance = (\<lambda>s. s\<lparr>self_line := self_line s + 1, self_col := 0\<rparr>) in
      if state self = Some T_string then
        Inl (syntax_exception self Unescaped_line_break (self_line self) None (self_line self) None)
      else if state self = Some T_comment then Inr (advance (self\<lparr>state := None\<rparr>))
      else if state self = Some T_keyword then
        (case append_token self of Inl e \<Rightarrow> Inl e | Inr s \<Rightarrow> Inr (advance s))
      else if state self = Some T_paren then Inr (advance (self\<lparr>token := token self @ [char]\<rparr>))
      else Inr (advance self))"

text \<open>The characters that end a keyword.\<close>

definition ends_keyword :: "char \<Rightarrow> bool" where
  "ends_keyword char =
     (char \<in> set [SINGLE, DOUBLE, L_CURLY, L_ROUND, L_SQUARE, SEMICOLON, COMMA]
      \<or> is_whitespace char)"

text \<open>The branch \<^verbatim>\<open>if self.state == None\<close>.\<close>

definition in_none :: "tokenizer \<Rightarrow> char \<Rightarrow> error + flow" where
  "in_none self char =
     (if char \<in> set [SINGLE, DOUBLE] then
        Inr (Next (self\<lparr>state := Some T_string,
                        token_pos := Some \<lparr>pos_line = self_line self, pos_col = self_col self\<rparr>,
                        quote := Some char,
                        token := token self @ [char]\<rparr>))
      else if is_whitespace char then Inr (Continue self)
      else if char = SEMICOLON then Inr (Next (append_keywords self))
      else if char \<in> set [L_CURLY, L_ROUND, L_SQUARE] then
        Inr (Next (self\<lparr>state := Some T_paren,
                        token := token self @ [char],
                        token_pos := Some \<lparr>pos_line = self_line self, pos_col = self_col self\<rparr>,
                        paren := Some char,
                        r_paren := PAREN_PAIR char,
                        paren_count := Some 0\<rparr>))
      else if char \<in> set [R_CURLY, R_ROUND, R_SQUARE] then
        Inl (syntax_exception self Unexpected_bracket (self_line self) (Some (self_col self))
               (self_line self) (Some (self_col self)))
      else if char = HASH \<and> self_col self = 1 then Inr (Next (self\<lparr>state := Some T_comment\<rparr>))
      else if char = COMMA then
        (case append_token
                (self\<lparr>token := token self @ [char],
                      token_pos := Some \<lparr>pos_line = self_line self, pos_col = self_col self\<rparr>,
                      state := Some T_comma\<rparr>) of
           Inl e \<Rightarrow> Inl e
         | Inr s \<Rightarrow> Inr (Next s))
      else
        Inr (Next (self\<lparr>state := Some T_keyword,
                        token_pos := Some \<lparr>pos_line = self_line self, pos_col = self_col self\<rparr>,
                        token := token self @ [char]\<rparr>)))"

text \<open>
  The branch \<^verbatim>\<open>elif self.state == TokenType.string\<close>. The decoder
  \<^verbatim>\<open>ast.literal_eval\<close> belongs to Python's library, not to this repository: it is
  the parameter \<open>ev\<close>, which may raise.
\<close>

definition in_string :: "(string \<Rightarrow> error + string) \<Rightarrow> tokenizer \<Rightarrow> char \<Rightarrow> error + flow" where
  "in_string ev self0 char =
     (let self = self0\<lparr>token := token self0 @ [char]\<rparr> in
      if char = BACKSLASH \<and> \<not> is_escaped self then Inr (Next (self\<lparr>is_escaped := True\<rparr>))
      else if Some char = quote self \<and> \<not> is_escaped self then
        (case ev (token self) of
           Inl e \<Rightarrow> Inl e
         | Inr decoded \<Rightarrow>
             (case append_token (self\<lparr>token := decoded\<rparr>) of
                Inl e \<Rightarrow> Inl e
              | Inr s \<Rightarrow> Inr (Next s)))
      else if is_escaped self then Inr (Next (self\<lparr>is_escaped := False\<rparr>))
      else Inr (Next self))"

text \<open>The branch \<^verbatim>\<open>elif self.state == TokenType.paren\<close>.\<close>

definition in_paren :: "bool \<Rightarrow> tokenizer \<Rightarrow> char \<Rightarrow> error + flow" where
  "in_paren expect_semicolon self0 char =
     (let self = self0\<lparr>token := token self0 @ [char]\<rparr> in
      if is_string self then
        (if char = BACKSLASH \<and> \<not> is_escaped self then Inr (Next (self\<lparr>is_escaped := True\<rparr>))
         else if Some char = quote self \<and> \<not> is_escaped self then
           Inr (Next (self\<lparr>is_string := False\<rparr>))
         else if is_escaped self then Inr (Next (self\<lparr>is_escaped := False\<rparr>))
         else Inr (Next self))
      else if Some char = r_paren self \<and> paren_count self = Some 0 then
        (let is_end = (paren self = Some L_CURLY);
             self1 =
               (if paren self = Some L_CURLY then self\<lparr>state := Some T_paren_curly\<rparr>
                else if paren self = Some L_ROUND then self\<lparr>state := Some T_paren_round\<rparr>
                else if paren self = Some L_SQUARE then self\<lparr>state := Some T_paren_square\<rparr>
                else self)
         in case append_token self1 of
              Inl e \<Rightarrow> Inl e
            | Inr s \<Rightarrow>
                Inr (Continue (if is_end \<and> expect_semicolon then append_keywords s else s)))
      else if Some char = paren self then
        Inr (Next (self\<lparr>paren_count := map_option (\<lambda>n. n + 1) (paren_count self)\<rparr>))
      else if Some char = r_paren self then
        Inr (Next (self\<lparr>paren_count := map_option (\<lambda>n. n - 1) (paren_count self)\<rparr>))
      else if char \<in> set [SINGLE, DOUBLE] then
        Inr (Next (self\<lparr>is_string := True, quote := Some char\<rparr>))
      else Inr (Next self))"

text \<open>
  The chain \<^verbatim>\<open>if self.state == None: ... elif string ... elif paren ... elif comment\<close>
  with the assignment to \<^verbatim>\<open>self.is_slash\<close> after it.
\<close>

definition dispatch ::
  "(string \<Rightarrow> error + string) \<Rightarrow> bool \<Rightarrow> tokenizer \<Rightarrow> char \<Rightarrow> error + tokenizer" where
  "dispatch ev expect_semicolon self char =
     (case (if state self = None then in_none self char
            else if state self = Some T_string then in_string ev self char
            else if state self = Some T_paren then in_paren expect_semicolon self char
            else Inr (Next self)) of
        Inl e \<Rightarrow> Inl e
      | Inr f \<Rightarrow> Inr (end_of_body char f))"

text \<open>The whole body of the loop, for one character.\<close>

definition step ::
  "(string \<Rightarrow> error + string) \<Rightarrow> bool \<Rightarrow> tokenizer \<Rightarrow> char \<Rightarrow> error + tokenizer" where
  "step ev expect_semicolon self0 char =
     (let self = self0\<lparr>self_col := self_col self0 + 1\<rparr> in
      if \<not> expect_semicolon \<and> char = SEMICOLON then
        Inl (syntax_exception self Unexpected_semicolon (self_line self) (Some (self_col self))
               (self_line self) (Some (self_col self)))
      else if char = NEW_LINE then on_new_line self char
      else if char = SLASH \<and> is_slash self \<and> state self \<noteq> Some T_string then
        Inr (self\<lparr>state := Some T_comment, token := butlast (token self)\<rparr>)
      else if state self = Some T_keyword then
        (if ends_keyword char then
           (case append_token self of
              Inl e \<Rightarrow> Inl e
            | Inr s \<Rightarrow> dispatch ev expect_semicolon s char)
         else Inr (self\<lparr>token := token self @ [char]\<rparr>))
      else dispatch ev expect_semicolon self char)"

fun scan ::
  "(string \<Rightarrow> error + string) \<Rightarrow> bool \<Rightarrow> tokenizer \<Rightarrow> string \<Rightarrow> error + tokenizer" where
  "scan ev expect_semicolon self [] = Inr self"
| "scan ev expect_semicolon self (char # rest) =
     (case step ev expect_semicolon self char of
        Inl e \<Rightarrow> Inl e
      | Inr s \<Rightarrow> scan ev expect_semicolon s rest)"

subsection \<open>The end of the input and \<^verbatim>\<open>parse\<close>\<close>

text \<open>
  \<^verbatim>\<open>parse\<close> returns the list of statements when a semicolon is expected and the
  first statement otherwise; the two shapes of the result are the two constructors.
\<close>

datatype parsed = Program "Token list list" | Statement "Token list"

definition flush_keyword :: "bool \<Rightarrow> tokenizer \<Rightarrow> error + tokenizer" where
  "flush_keyword expect_semicolon self =
     (if state self = Some T_keyword then
        (case (if token self \<noteq> [] then append_token self else Inr self) of
           Inl e \<Rightarrow> Inl e
         | Inr s \<Rightarrow> Inr (if \<not> expect_semicolon then append_keywords s else s))
      else Inr self)"

definition check_end :: "tokenizer \<Rightarrow> error + tokenizer" where
  "check_end self =
     (if state self = Some T_string then
        Inl (syntax_exception self Unescaped_line_break (self_line self) None (self_line self) None)
      else if state self = Some T_paren then
        (case token_pos self of
           None \<Rightarrow> Inl AttributeError
         | Some p \<Rightarrow>
             Inl (syntax_exception self Bracket_never_closed (pos_line p) (Some (pos_col p))
                    (pos_line p) (Some (pos_col p))))
      else if keywords_buf self \<noteq> [] then
        (let k = last (keywords_buf self) in
         Inl (syntax_exception self Expected_semicolon (line k) (Some (col k + length_tok k))
                (line k) (Some (col k + length_tok k))))
      else Inr self)"

definition result :: "bool \<Rightarrow> tokenizer \<Rightarrow> error + parsed" where
  "result expect_semicolon self =
     (if expect_semicolon then Inr (Program (list_of_tokens self))
      else (case list_of_tokens self of
              [] \<Rightarrow> Inl IndexError
            | first # _ \<Rightarrow> Inr (Statement first)))"

text \<open>The assignments at the head of \<^verbatim>\<open>parse\<close>.\<close>

definition reset :: "tokenizer \<Rightarrow> int \<Rightarrow> int \<Rightarrow> tokenizer" where
  "reset self l c =
     self\<lparr>list_of_tokens := [], self_line := l, self_col := c - 1, keywords_buf := [],
          state := None, token := [], token_pos := None, quote := None, is_escaped := False,
          paren := None, r_paren := None, paren_count := None, is_string := False,
          is_slash := False\<rparr>"

text \<open>
  \<^verbatim>\<open>parse\<close> changes the object it is called on, so it returns the object next to
  its result. An exception leaves the method without a result.
\<close>

definition parse ::
  "(string \<Rightarrow> error + string) \<Rightarrow> tokenizer \<Rightarrow> string \<Rightarrow> int \<Rightarrow> int \<Rightarrow> bool
     \<Rightarrow> error + (parsed \<times> tokenizer)" where
  "parse ev self str l c expect_semicolon =
     (case scan ev expect_semicolon (reset self l c) str of
        Inl e \<Rightarrow> Inl e
      | Inr s1 \<Rightarrow>
          (case flush_keyword expect_semicolon s1 of
             Inl e \<Rightarrow> Inl e
           | Inr s2 \<Rightarrow>
               (case check_end s2 of
                  Inl e \<Rightarrow> Inl e
                | Inr s3 \<Rightarrow>
                    (case result expect_semicolon s3 of
                       Inl e \<Rightarrow> Inl e
                     | Inr r \<Rightarrow> Inr (r, s3)))))"

text \<open>
  \<^verbatim>\<open>Tokenizer.__init__\<close> stores its arguments and tokenizes the whole source into
  \<^verbatim>\<open>self.programs\<close>, which is returned here next to the object. The attributes
  that \<^verbatim>\<open>parse\<close> assigns before it reads them have no value yet when it is called;
  \<open>new_tokenizer\<close> gives them the values of that assignment.
\<close>

definition new_tokenizer :: "string \<Rightarrow> string \<Rightarrow> string \<Rightarrow> tokenizer" where
  "new_tokenizer raw fstr path =
     \<lparr>raw_string = raw, file_string = fstr, file_path = path, self_line = 0, self_col = 0,
      state = None, token = [], token_pos = None, keywords_buf = [], list_of_tokens = [],
      quote = None, is_escaped = False, paren = None, r_paren = None, paren_count = None,
      is_string = False, is_slash = False\<rparr>"

definition Tokenizer_init ::
  "(string \<Rightarrow> error + string) \<Rightarrow> string \<Rightarrow> string \<Rightarrow> int \<Rightarrow> int \<Rightarrow> string option
     \<Rightarrow> error + (parsed \<times> tokenizer)" where
  "Tokenizer_init ev raw path l c fstr =
     parse ev (new_tokenizer raw (case fstr of None \<Rightarrow> raw | Some f \<Rightarrow> f) path) raw l c True"

text \<open>
  On a literal without a backslash, \<^verbatim>\<open>ast.literal_eval\<close> returns the text between
  the quotes. \<open>unquote\<close> does that and stands for the decoder where a theorem runs the
  tokenizer on such a literal.
\<close>

definition unquote :: "string \<Rightarrow> error + string" where
  "unquote s = Inr (butlast (tl s))"

text \<open>The tokens of a result, whatever its shape.\<close>

fun tokens_of :: "parsed \<Rightarrow> Token list" where
  "tokens_of (Program p) = concat p"
| "tokens_of (Statement st) = st"

subsection \<open>The argument parser\<close>

text \<open>
  The local variables of \<^verbatim>\<open>parse_func_args\<close> that its loop and the two closures
  \<^verbatim>\<open>add_arg\<close> and \<^verbatim>\<open>add_key\<close> change. \<^verbatim>\<open>kwargs\<close> is a dictionary, kept as
  the list of its items in insertion order; \<^verbatim>\<open>last_token\<close> is unbound until its
  first assignment.
\<close>

record locals =
  args :: "Token list"
  kwargs :: "(string \<times> Token) list"
  key :: string
  arg :: string
  arrow_func_state :: int
  last_token :: "Token option"

definition add_arg :: "tokenizer \<Rightarrow> locals \<Rightarrow> Token \<Rightarrow> error + locals" where
  "add_arg self v tok =
     (if kwargs v \<noteq> [] then
        Inl (syntax_exception self Positional_follows_keyword (line tok) (Some (col tok + 1))
               (line tok) (Some (col tok + 1)))
      else
        Inr (v\<lparr>args := args v @ [Token (token_type tok) (line tok) (col tok) (arg v)],
                arg := []\<rparr>))"

text \<open>
  \<^verbatim>\<open>add_key\<close> reads \<^verbatim>\<open>key[0]\<close> before it compares the key with the empty string,
  and its first message reads \<^verbatim>\<open>last_token\<close> of the enclosing function.
\<close>

definition add_key :: "tokenizer \<Rightarrow> locals \<Rightarrow> Token \<Rightarrow> error + locals" where
  "add_key self v tok =
     (case key v of
        [] \<Rightarrow> Inl IndexError
      | k0 # _ \<Rightarrow>
          if k0 \<in> set [L_CURLY, L_ROUND, L_SQUARE] then
            (case last_token v of
               None \<Rightarrow> Inl NameError
             | Some lt \<Rightarrow>
                 Inl (syntax_exception self (Invalid_key (key v)) (line lt) (Some (col lt))
                        (line lt) (Some (col lt))))
          else if key v = [] then
            Inl (syntax_exception self Empty_key (line tok) (Some (col tok))
                   (line tok) (Some (col tok)))
          else if key v \<in> fst ` set (kwargs v) then
            Inl (syntax_exception self (Duplicated_key (key v)) (line tok) (Some (col tok))
                   (line tok) (Some (col tok)))
          else
            Inr (v\<lparr>kwargs :=
                      kwargs v @ [(key v, Token (token_type tok) (line tok) (col tok) (arg v))],
                    key := [], arg := []\<rparr>))"

text \<open>\<^verbatim>\<open>if key: add_key(t)\<close>, which follows several assignments to \<^verbatim>\<open>arg\<close>.\<close>

definition add_key_if_key :: "tokenizer \<Rightarrow> locals \<Rightarrow> Token \<Rightarrow> error + locals" where
  "add_key_if_key self v tok = (if key v \<noteq> [] then add_key self v tok else Inr v)"

text \<open>
  The block \<^verbatim>\<open>if arrow_func_state > 0\<close>. Each of its paths ends in \<^verbatim>\<open>continue\<close> or
  raises, except when the state is neither 1 nor 2, where the body goes on: \<open>None\<close>.
\<close>

definition arrow_block :: "tokenizer \<Rightarrow> locals \<Rightarrow> Token \<Rightarrow> (error + locals) option" where
  "arrow_block self v tok =
     (if arrow_func_state v = 1 then
        (if string tok = ''=>'' \<and> token_type tok = Some T_keyword then
           Some (Inr (v\<lparr>arrow_func_state := 2, last_token := Some tok\<rparr>))
         else
           (case last_token v of
              None \<Rightarrow> Some (Inl NameError)
            | Some lt \<Rightarrow>
                (case add_key_if_key self (v\<lparr>arg := string lt\<rparr>) lt of
                   Inl e \<Rightarrow> Some (Inl e)
                 | Inr v1 \<Rightarrow> Some (Inr (v1\<lparr>arrow_func_state := 0\<rparr>)))))
      else if arrow_func_state v = 2 then
        (if token_type tok = Some T_paren_curly then
           (let new_token = Token (Some T_func) (line tok) (col tok) (butlast (tl (string tok)))
            in case add_key_if_key self (v\<lparr>arg := string new_token\<rparr>) new_token of
                 Inl e \<Rightarrow> Some (Inl e)
               | Inr v1 \<Rightarrow> Some (Inr (v1\<lparr>last_token := Some new_token, arrow_func_state := 0\<rparr>)))
         else
           Some (Inl (syntax_exception self Expected_curly (line tok) (Some (col tok))
                        (line tok) (Some (col tok)))))
      else None)"

text \<open>The branch \<^verbatim>\<open>if token.token_type == TokenType.keyword\<close>.\<close>

definition on_keyword :: "tokenizer \<Rightarrow> locals \<Rightarrow> Token \<Rightarrow> error + locals" where
  "on_keyword self v tok =
     (if arg v \<noteq> [] then
        (if startswith (string tok) ''='' then
           (let v1 = v\<lparr>key := arg v, arg := tl (string tok)\<rparr>
            in if arg v1 \<noteq> [] then add_key self v1 tok else Inr v1)
         else
           Inl (syntax_exception self Unexpected_token (line tok) (Some (col tok))
                  (line tok) (Some (col tok + length_tok tok))))
      else if key v \<noteq> [] then
        (let v1 = v\<lparr>arg := string tok\<rparr>
         in if CHR ''='' \<in> set (string tok) then
              (let c = col tok + find_char CHR ''='' (string tok)
               in Inl (syntax_exception self Duplicated_equal_sign (line tok) (Some (c + 1))
                         (line tok) (Some (c + 1))))
            else add_key self v1 tok)
      else
        (let equal_sign_count = count_list (string tok) CHR ''=''
         in if equal_sign_count > 1 then
              (let c = col tok + rfind_char CHR ''='' (string tok) + 1
               in Inl (syntax_exception self Duplicated_equal_sign (line tok) (Some c)
                         (line tok) (Some c)))
            else if endswith (string tok) ''='' then Inr (v\<lparr>key := butlast (string tok)\<rparr>)
            else if CHR ''='' \<in> set (string tok) then
              (case split_on CHR ''='' (string tok) of
                 [k, a] \<Rightarrow> add_key self (v\<lparr>key := k, arg := a\<rparr>) tok
               | _ \<Rightarrow> Inl ValueError)
            else Inr (v\<lparr>arg := string tok\<rparr>)))"

text \<open>The body of \<^verbatim>\<open>for token in keywords\<close>.\<close>

definition arg_step :: "tokenizer \<Rightarrow> locals \<Rightarrow> Token \<Rightarrow> error + locals" where
  "arg_step self v tok =
     (case (if arrow_func_state v > 0 then arrow_block self v tok else None) of
        Some r \<Rightarrow> r
      | None \<Rightarrow>
          (case
             (if token_type tok = Some T_keyword then on_keyword self v tok
              else if token_type tok = Some T_comma then
                (let v1 = v\<lparr>arrow_func_state := 0\<rparr>
                 in if arg v1 \<noteq> [] then
                      (case last_token v1 of
                         None \<Rightarrow> Inl NameError
                       | Some lt \<Rightarrow> add_arg self v1 lt)
                    else Inr v1)
              else if token_type tok \<in> set [Some T_paren_round, Some T_paren_curly, Some T_paren_square]
              then
                (if string tok = ''()'' then Inr (v\<lparr>arrow_func_state := 1\<rparr>)
                 else add_key_if_key self (v\<lparr>arg := string tok\<rparr>) tok)
              else if token_type tok = Some T_string then
                add_key_if_key self (v\<lparr>arg := string tok\<rparr>) tok
              else Inr v) of
             Inl e \<Rightarrow> Inl e
           | Inr v1 \<Rightarrow> Inr (v1\<lparr>last_token := Some tok\<rparr>)))"

fun arg_loop :: "tokenizer \<Rightarrow> locals \<Rightarrow> Token list \<Rightarrow> error + locals" where
  "arg_loop self v [] = Inr v"
| "arg_loop self v (tok # toks) =
     (case arg_step self v tok of
        Inl e \<Rightarrow> Inl e
      | Inr v1 \<Rightarrow> arg_loop self v1 toks)"

text \<open>
  \<^verbatim>\<open>parse_func_args\<close>. The message of its first check reads \<^verbatim>\<open>self.line\<close>. After
  the loop, \<^verbatim>\<open>token\<close> is the last token of the list when there is one and the
  argument of the method otherwise. The two calls of \<^verbatim>\<open>pprint\<close> only print.
  Called with \<^verbatim>\<open>expect_semicolon=False\<close>, \<^verbatim>\<open>parse\<close> returns a statement; the
  other shape of its result cannot occur there and has no counterpart in the source.
\<close>

definition parse_func_args ::
  "(string \<Rightarrow> error + string) \<Rightarrow> tokenizer \<Rightarrow> Token
     \<Rightarrow> error + ((Token list \<times> (string \<times> Token) list) \<times> tokenizer)" where
  "parse_func_args ev self tok =
     (if token_type tok \<noteq> Some T_paren_round then
        Inl (syntax_exception self Expected_round (line tok) (Some (col tok)) (self_line self) None)
      else
        (case parse ev self (butlast (tl (string tok))) (line tok) (col tok) False of
           Inl e \<Rightarrow> Inl e
         | Inr (Program _, _) \<Rightarrow> Inl ValueError
         | Inr (Statement keywords, self1) \<Rightarrow>
             (case arg_loop self1
                     \<lparr>args = [], kwargs = [], key = [], arg = [], arrow_func_state = 0,
                      last_token = None\<rparr> keywords of
                Inl e \<Rightarrow> Inl e
              | Inr v \<Rightarrow>
                  (case (if arg v \<noteq> []
                         then add_arg self1 v (if keywords = [] then tok else last keywords)
                         else Inr v) of
                     Inl e \<Rightarrow> Inl e
                   | Inr v1 \<Rightarrow> Inr ((args v1, kwargs v1), self1)))))"

subsection \<open>The class expander\<close>

text \<open>
  \<^verbatim>\<open>class_REGEX\<close> is \<^verbatim>\<open>^class\s*([\w\._]+)\s*\<close> followed by the pattern that
  \<^verbatim>\<open>bracket_regex.match_bracket('{}', 2)\<close> builds. It is matched by the module
  \<^verbatim>\<open>regex\<close>, whose \<^verbatim>\<open>\s\<close> is Unicode's White_Space and whose \<^verbatim>\<open>\w\<close> is the
  letters, the decimal digits and the underscore; both are cut to the code points
  below 256 here.
\<close>

definition regex_space :: "char \<Rightarrow> bool" where
  "regex_space c = (let n = (of_char c :: nat) in (9 \<le> n \<and> n \<le> 13) \<or> n = 32 \<or> n = 133 \<or> n = 160)"

definition regex_word :: "char \<Rightarrow> bool" where
  "regex_word c =
     (let n = (of_char c :: nat)
      in (48 \<le> n \<and> n \<le> 57) \<or> (65 \<le> n \<and> n \<le> 90) \<or> n = 95 \<or> (97 \<le> n \<and> n \<le> 122)
         \<or> n = 170 \<or> n = 181 \<or> n = 186 \<or> (192 \<le> n \<and> n \<le> 214) \<or> (216 \<le> n \<and> n \<le> 246)
         \<or> (248 \<le> n \<and> n \<le> 255))"

definition name_char :: "char \<Rightarrow> bool" where
  "name_char c = (regex_word c \<or> c = CHR ''.'' \<or> c = CHR ''_'')"

text \<open>
  The class \<^verbatim>\<open>BracketRegex\<close> of \<^verbatim>\<open>jmc/utils\<close> is not among the sources. The
  bracket pattern it builds is the parameter \<open>mb\<close>: applied to the text where the
  pattern has to match, it gives the content of the bracket group, as
  \<^verbatim>\<open>bracket_regex.compile\<close> returns it next to the class name, and the text after the
  match, or \<open>None\<close> where the pattern does not match. The pattern opens with the
  bracket itself, which is neither white space nor a character of a name, so the two
  greedy runs before it cannot give characters back: the name is the longest run of
  name characters, between the longest runs of white space.
\<close>

definition match_class ::
  "(string \<Rightarrow> (string \<times> string) option) \<Rightarrow> string \<Rightarrow> (string \<times> string \<times> string) option" where
  "match_class mb s =
     (if startswith s ''class'' then
        (let r1 = dropWhile regex_space (drop 5 s);
             class_name = takeWhile name_char r1;
             r2 = dropWhile regex_space (dropWhile name_char r1)
         in if class_name = [] then None
            else (case mb r2 of
                    None \<Rightarrow> None
                  | Some (class_content, rest) \<Rightarrow> Some (class_name, class_content, rest)))
      else None)"

text \<open>
  \<^verbatim>\<open>process_class\<close>. The method \<^verbatim>\<open>process_function\<close> of the data pack is a
  collaborator that is not part of these sources: it is the parameter
  \<open>process_function\<close>, which takes the content and the prefix, may change the data
  pack (the state \<open>'w\<close>) and may raise. The anchor \<^verbatim>\<open>^\<close> lets \<^verbatim>\<open>regex.subn\<close>
  replace at most one match, at the head of the line, so the new line is the returned
  text followed by what the match left. The recursion ends only when some line does
  not match: a run that never ends is the value \<open>None\<close>.
\<close>

partial_function (option) process_class ::
  "(string \<Rightarrow> string \<Rightarrow> 'w \<Rightarrow> error + (string \<times> 'w)) \<Rightarrow> (string \<Rightarrow> (string \<times> string) option)
     \<Rightarrow> string \<Rightarrow> string \<Rightarrow> 'w \<Rightarrow> (error + (string \<times> 'w)) option" where
  "process_class process_function mb line0 prefix w =
     (case match_class mb (strip line0) of
        None \<Rightarrow> Some (Inr (strip line0, w))
      | Some (class_name, class_content, rest) \<Rightarrow>
          (case process_function class_content (prefix @ class_name @ ''.'') w of
             Inl e \<Rightarrow> Some (Inl e)
           | Inr (remaining_line, w1) \<Rightarrow>
               process_class process_function mb (remaining_line @ rest) prefix w1))"

text \<open>
  Modelled from the spec: the bracket pattern of \<^verbatim>\<open>BracketRegex\<close>, which is not
  under the sources. The specification asks for a matcher of balanced braces that
  follows the nesting; this one follows it to any depth. It is used where a concrete
  matcher is needed to run the expander.
\<close>

fun close_brace :: "nat \<Rightarrow> string \<Rightarrow> (string \<times> string) option" where
  "close_brace d [] = None"
| "close_brace d (c # cs) =
     (if c = R_CURLY \<and> d = 0 then Some ([], cs)
      else (case close_brace (if c = R_CURLY then d - 1 else if c = L_CURLY then d + 1 else d) cs of
              None \<Rightarrow> None
            | Some (body, rest) \<Rightarrow> Some (c # body, rest)))"

definition match_bracket :: "string \<Rightarrow> (string \<times> string) option" where
  "match_bracket s = (case s of [] \<Rightarrow> None | c # cs \<Rightarrow> if c = L_CURLY then close_brace 0 cs else None)"

declare process_class.simps [code]

text \<open>
  A collaborator that finds no function in the content of a class: the content comes
  back as the remaining text. Its data pack is the list of the calls it has received,
  each with its content and its prefix. It stands for \<^verbatim>\<open>process_function\<close> where a
  theorem runs the expander.
\<close>

definition record_call ::
  "string \<Rightarrow> string \<Rightarrow> (string \<times> string) list
     \<Rightarrow> error + (string \<times> (string \<times> string) list)" where
  "record_call content prefix w = Inr (content, w @ [(content, prefix)])"

subsection \<open>Predicates of the proofs\<close>

text \<open>What \<^verbatim>\<open>__post_init__\<close> makes of the length of a token.\<close>

definition length_ok :: "Token \<Rightarrow> bool" where
  "length_ok t =
     (length_tok t =
        (if token_type t = Some T_string then int (length (string t)) + 2
         else int (length (string t))))"

definition tokens_ok :: "tokenizer \<Rightarrow> bool" where
  "tokens_ok self =
     ((\<forall>t \<in> set (keywords_buf self). length_ok t)
      \<and> (\<forall>ts \<in> set (list_of_tokens self). \<forall>t \<in> set ts. length_ok t))"

definition locals_ok :: "locals \<Rightarrow> bool" where
  "locals_ok v =
     ((\<forall>t \<in> set (args v). length_ok t) \<and> (\<forall>t \<in> snd ` set (kwargs v). length_ok t))"

text \<open>A tokenizer that has emitted no token and has none open.\<close>

definition idle :: "tokenizer \<Rightarrow> bool" where
  "idle self =
     ((state self = None \<or> state self = Some T_comment)
      \<and> keywords_buf self = [] \<and> list_of_tokens self = [])"

text \<open>
  A tokenizer that is idle with an empty buffer: idle and with nothing left in
  \<^verbatim>\<open>self.token\<close>.
\<close>

definition quiet :: "tokenizer \<Rightarrow> bool" where
  "quiet self = (idle self \<and> token self = [])"

text \<open>
  Inputs of comments and white space only, in the words of the specification: a line
  is white space, or white space followed by a comment that two slashes open, or a
  comment that a hash opens in column 1. The lines are the pieces between the line
  breaks; the first one starts in the column \<open>c\<close> that the caller gives, the others in
  column 1.
\<close>

definition comment_line :: "bool \<Rightarrow> string \<Rightarrow> bool" where
  "comment_line col1 ln =
     (dropWhile is_whitespace ln = []
      \<or> take 2 (dropWhile is_whitespace ln) = ''//''
      \<or> (col1 \<and> take 1 ln = ''#''))"

definition comment_only :: "int \<Rightarrow> string \<Rightarrow> bool" where
  "comment_only c s =
     (case split_on NEW_LINE s of
        [] \<Rightarrow> True
      | first # others \<Rightarrow>
          comment_line (c = 1) first \<and> (\<forall>ln \<in> set others. comment_line True ln))"

section \<open>Properties\<close>

subsection \<open>The scanning loop\<close>

lemma scan_append:
  "scan ev es self (xs @ ys) =
     (case scan ev es self xs of Inl e \<Rightarrow> Inl e | Inr s \<Rightarrow> scan ev es s ys)"
  by (induction xs arbitrary: self) (auto split: sum.splits)

lemma reset_eq:
  "raw_string a = raw_string b \<Longrightarrow> file_string a = file_string b \<Longrightarrow> file_path a = file_path b
   \<Longrightarrow> reset a l c = reset b l c"
  by (cases a, cases b) (simp add: reset_def)

lemma check_end_same: "check_end self = Inr s \<Longrightarrow> s = self"
  by (auto simp: check_end_def Let_def split: if_splits option.splits)

subsection \<open>The length of every token\<close>

lemma Token_length [simp]: "length_ok (Token tt l c s)"
  by (simp add: Token_def length_ok_def)

lemma tokens_ok_upd [simp]:
  "tokens_ok (self\<lparr>token := a\<rparr>) = tokens_ok self"
  "tokens_ok (self\<lparr>state := b\<rparr>) = tokens_ok self"
  "tokens_ok (self\<lparr>token_pos := c\<rparr>) = tokens_ok self"
  "tokens_ok (self\<lparr>quote := d\<rparr>) = tokens_ok self"
  "tokens_ok (self\<lparr>is_escaped := e\<rparr>) = tokens_ok self"
  "tokens_ok (self\<lparr>paren := f\<rparr>) = tokens_ok self"
  "tokens_ok (self\<lparr>r_paren := g\<rparr>) = tokens_ok self"
  "tokens_ok (self\<lparr>paren_count := h\<rparr>) = tokens_ok self"
  "tokens_ok (self\<lparr>is_string := i\<rparr>) = tokens_ok self"
  "tokens_ok (self\<lparr>is_slash := j\<rparr>) = tokens_ok self"
  "tokens_ok (self\<lparr>self_line := k\<rparr>) = tokens_ok self"
  "tokens_ok (self\<lparr>self_col := n\<rparr>) = tokens_ok self"
  by (simp_all add: tokens_ok_def)

lemma append_token_ok: "tokens_ok self \<Longrightarrow> append_token self = Inr s \<Longrightarrow> tokens_ok s"
  by (auto simp: append_token_def tokens_ok_def split: option.splits)

lemma append_keywords_ok: "tokens_ok self \<Longrightarrow> tokens_ok (append_keywords self)"
  by (auto simp: append_keywords_def tokens_ok_def)

lemma on_new_line_ok: "tokens_ok self \<Longrightarrow> on_new_line self ch = Inr s \<Longrightarrow> tokens_ok s"
  by (auto simp: on_new_line_def Let_def split: if_splits sum.splits dest: append_token_ok)

lemma in_none_ok:
  "tokens_ok self \<Longrightarrow> in_none self ch = Inr f \<Longrightarrow> tokens_ok (end_of_body ch f)"
  by (auto simp: in_none_def end_of_body_def append_keywords_ok split: if_splits sum.splits
        dest!: append_token_ok [rotated])

lemma in_string_ok:
  "tokens_ok self \<Longrightarrow> in_string ev self ch = Inr f \<Longrightarrow> tokens_ok (end_of_body ch f)"
  by (auto simp: in_string_def end_of_body_def Let_def split: if_splits sum.splits
        dest!: append_token_ok [rotated])

lemma in_paren_ok:
  "tokens_ok self \<Longrightarrow> in_paren es self ch = Inr f \<Longrightarrow> tokens_ok (end_of_body ch f)"
  by (auto simp: in_paren_def end_of_body_def Let_def append_keywords_ok
        split: if_splits sum.splits dest!: append_token_ok [rotated])

lemma dispatch_ok: "tokens_ok self \<Longrightarrow> dispatch ev es self ch = Inr s \<Longrightarrow> tokens_ok s"
  by (auto simp: dispatch_def end_of_body_def split: if_splits sum.splits
        dest: in_none_ok in_string_ok in_paren_ok)

lemma step_ok: "tokens_ok self \<Longrightarrow> step ev es self ch = Inr s \<Longrightarrow> tokens_ok s"
  by (auto simp: step_def Let_def split: if_splits sum.splits
        dest!: on_new_line_ok [rotated] dispatch_ok [rotated] append_token_ok [rotated])

lemma scan_ok: "tokens_ok self \<Longrightarrow> scan ev es self cs = Inr s \<Longrightarrow> tokens_ok s"
  by (induction cs arbitrary: self) (auto split: sum.splits dest: step_ok)

lemma reset_ok: "tokens_ok (reset self l c)"
  by (simp add: reset_def tokens_ok_def)

lemma flush_keyword_ok: "tokens_ok self \<Longrightarrow> flush_keyword es self = Inr s \<Longrightarrow> tokens_ok s"
  by (auto simp: flush_keyword_def append_keywords_ok split: if_splits sum.splits
        dest: append_token_ok)

lemma result_ok:
  "tokens_ok self \<Longrightarrow> result es self = Inr r \<Longrightarrow> t \<in> set (tokens_of r) \<Longrightarrow> length_ok t"
  by (fastforce simp: result_def tokens_ok_def split: if_splits list.splits)

lemma parse_ok:
  assumes "parse ev self s l c m = Inr (r, self')"
  shows "\<forall>t \<in> set (tokens_of r). length_ok t"
proof -
  from assms obtain s1 s2 where
    1: "scan ev m (reset self l c) s = Inr s1" and
    2: "flush_keyword m s1 = Inr s2" and
    3: "check_end s2 = Inr self'" and
    4: "result m self' = Inr r"
    by (auto simp: parse_def split: sum.splits)
  have "tokens_ok s1" using scan_ok [OF reset_ok 1] .
  then have "tokens_ok s2" using 2 by (rule flush_keyword_ok)
  then have ok: "tokens_ok self'" using check_end_same [OF 3] by simp
  show ?thesis using result_ok [OF ok 4] by blast
qed

lemma locals_ok_upd [simp]:
  "locals_ok (v\<lparr>key := a\<rparr>) = locals_ok v"
  "locals_ok (v\<lparr>arg := b\<rparr>) = locals_ok v"
  "locals_ok (v\<lparr>arrow_func_state := n\<rparr>) = locals_ok v"
  "locals_ok (v\<lparr>last_token := lt\<rparr>) = locals_ok v"
  by (simp_all add: locals_ok_def)

lemma add_arg_ok: "locals_ok v \<Longrightarrow> add_arg self v tok = Inr v' \<Longrightarrow> locals_ok v'"
  by (auto simp: add_arg_def locals_ok_def split: if_splits)

lemma add_key_ok: "locals_ok v \<Longrightarrow> add_key self v tok = Inr v' \<Longrightarrow> locals_ok v'"
  by (auto simp: add_key_def locals_ok_def split: if_splits list.splits option.splits)

lemma add_key_if_key_ok:
  "locals_ok v \<Longrightarrow> add_key_if_key self v tok = Inr v' \<Longrightarrow> locals_ok v'"
  by (auto simp: add_key_if_key_def split: if_splits dest: add_key_ok)

lemma arrow_block_ok:
  "locals_ok v \<Longrightarrow> arrow_block self v tok = Some (Inr v') \<Longrightarrow> locals_ok v'"
  by (auto simp: arrow_block_def Let_def split: if_splits option.splits sum.splits
        dest!: add_key_if_key_ok [rotated])

lemma on_keyword_ok: "locals_ok v \<Longrightarrow> on_keyword self v tok = Inr v' \<Longrightarrow> locals_ok v'"
  by (auto simp: on_keyword_def Let_def split: if_splits list.splits
        dest!: add_key_ok [rotated])

lemma arg_step_ok: "locals_ok v \<Longrightarrow> arg_step self v tok = Inr v' \<Longrightarrow> locals_ok v'"
  by (auto simp: arg_step_def Let_def split: if_splits option.splits sum.splits
        dest!: add_key_if_key_ok [rotated] add_arg_ok [rotated] on_keyword_ok [rotated]
               arrow_block_ok [rotated])

lemma arg_loop_ok: "locals_ok v \<Longrightarrow> arg_loop self v toks = Inr v' \<Longrightarrow> locals_ok v'"
  by (induction toks arbitrary: v) (auto split: sum.splits dest: arg_step_ok)

lemma parse_func_args_ok:
  assumes "parse_func_args ev self tok = Inr ((as, kws), self')"
  shows "\<forall>t \<in> set as \<union> snd ` set kws. length_ok t"
proof -
  let ?v0 = "\<lparr>args = [], kwargs = [], key = [], arg = [], arrow_func_state = 0,
              last_token = None\<rparr>"
  have 0: "locals_ok ?v0"
    by (simp add: locals_ok_def)
  from assms have tt: "token_type tok = Some T_paren_round"
    by (auto simp: parse_func_args_def split: if_splits)
  from assms tt obtain ks s1 where
    p: "parse ev self (butlast (tl (string tok))) (line tok) (col tok) False
          = Inr (Statement ks, s1)"
    by (cases "parse ev self (butlast (tl (string tok))) (line tok) (col tok) False")
       (auto simp: parse_func_args_def split: parsed.splits)
  from assms tt p obtain v where 1: "arg_loop s1 ?v0 ks = Inr v"
    by (cases "arg_loop s1 ?v0 ks") (auto simp: parse_func_args_def)
  let ?fin = "if arg v \<noteq> [] then add_arg s1 v (if ks = [] then tok else last ks) else Inr v"
  from assms tt p 1 obtain v1 where 2: "?fin = Inr v1"
    by (cases ?fin) (auto simp: parse_func_args_def)
  from assms tt p 1 2 have 3: "as = args v1" "kws = kwargs v1"
    by (auto simp: parse_func_args_def)
  have "locals_ok v" using arg_loop_ok [OF 0 1] .
  then have "locals_ok v1" using 2 by (auto split: if_splits dest: add_arg_ok)
  then show ?thesis using 3 by (auto simp: locals_ok_def)
qed

subsection \<open>Inputs without a token\<close>

lemma idle_end:
  assumes "scan ev False (reset self l c) s = Inr s1" and "idle s1"
  shows "parse ev self s l c False = Inl IndexError"
  using assms by (auto simp: parse_def idle_def flush_keyword_def check_end_def result_def)

lemma whitespace_not_special:
  "is_whitespace ch \<Longrightarrow> ch \<noteq> SEMICOLON \<and> ch \<noteq> SLASH \<and> ch \<noteq> SINGLE \<and> ch \<noteq> DOUBLE"
  by (auto simp: is_whitespace_def)

lemma step_whitespace:
  assumes "is_whitespace ch" and "state self = None" and "idle self"
  shows "\<exists>s. step ev False self ch = Inr s \<and> state s = None \<and> idle s"
  using assms whitespace_not_special [OF assms(1)]
  by (auto simp: step_def on_new_line_def dispatch_def in_none_def end_of_body_def idle_def
        Let_def)

lemma scan_whitespace:
  "\<forall>ch \<in> set cs. is_whitespace ch \<Longrightarrow> state self = None \<Longrightarrow> idle self
   \<Longrightarrow> \<exists>s. scan ev False self cs = Inr s \<and> idle s"
proof (induction cs arbitrary: self)
  case Nil
  then show ?case by simp
next
  case (Cons ch cs)
  then obtain s where "step ev False self ch = Inr s" "state s = None" "idle s"
    using step_whitespace [of ch self ev] by auto
  with Cons show ?case by auto
qed

lemma step_comment:
  assumes "ch \<noteq> NEW_LINE" and "ch \<noteq> SEMICOLON" and "state self = Some T_comment"
    and "idle self"
  shows "\<exists>s. step ev False self ch = Inr s \<and> state s = Some T_comment \<and> idle s"
  using assms
  by (auto simp: step_def dispatch_def end_of_body_def idle_def Let_def)

lemma scan_comment:
  "NEW_LINE \<notin> set cs \<Longrightarrow> SEMICOLON \<notin> set cs \<Longrightarrow> state self = Some T_comment \<Longrightarrow> idle self
   \<Longrightarrow> \<exists>s. scan ev False self cs = Inr s \<and> idle s"
proof (induction cs arbitrary: self)
  case Nil
  then show ?case by simp
next
  case (Cons ch cs)
  then obtain s where "step ev False self ch = Inr s" "state s = Some T_comment" "idle s"
    using step_comment [of ch self ev] by auto
  with Cons show ?case by auto
qed

lemma scan_two_slashes:
  "\<exists>s. scan ev False (reset self l c) ''//'' = Inr s \<and> state s = Some T_comment \<and> idle s"
  by (simp add: reset_def step_def dispatch_def in_none_def end_of_body_def idle_def
        is_whitespace_def)

lemma scan_hash:
  "\<exists>s. scan ev False (reset self l 1) ''#'' = Inr s \<and> state s = Some T_comment \<and> idle s"
  by (simp add: reset_def step_def dispatch_def in_none_def end_of_body_def idle_def
        is_whitespace_def)

subsection \<open>Inputs of comments and white space\<close>

lemma split_on_not_Nil: "split_on c s \<noteq> []"
  by (induction s) (auto split: list.splits)

lemma split_on_join: "hd (split_on c s) @ concat (map ((#) c) (tl (split_on c s))) = s"
  using split_on_not_Nil [of c]
  by (induction s) (auto split: list.splits)

lemma split_on_no_sep: "ln \<in> set (split_on c s) \<Longrightarrow> c \<notin> set ln"
  by (induction s arbitrary: ln) (auto split: if_splits list.splits)

lemma split_on_subset:
  assumes "ln \<in> set (split_on c s)"
  shows "set ln \<subseteq> set s"
proof -
  obtain x xs where sp: "split_on c s = x # xs"
    using split_on_not_Nil [of c s] by (cases "split_on c s") auto
  have s: "s = x @ concat (map ((#) c) xs)"
    using split_on_join [of c s] sp by simp
  have "ln = x \<or> ln \<in> set xs" using assms sp by simp
  then show ?thesis by (subst s) auto
qed

lemma step_blank:
  assumes "is_whitespace ch" and "ch \<noteq> NEW_LINE" and "state self = None" and "quiet self"
  shows "\<exists>s. step ev False self ch = Inr s \<and> state s = None \<and> quiet s"
  using assms whitespace_not_special [OF assms(1)]
  by (auto simp: step_def dispatch_def in_none_def end_of_body_def idle_def quiet_def Let_def)

lemma scan_blank:
  "\<forall>ch \<in> set cs. is_whitespace ch \<and> ch \<noteq> NEW_LINE \<Longrightarrow> state self = None \<Longrightarrow> quiet self
   \<Longrightarrow> \<exists>s. scan ev False self cs = Inr s \<and> state s = None \<and> quiet s"
proof (induction cs arbitrary: self)
  case Nil
  then show ?case by simp
next
  case (Cons ch cs)
  then obtain s where "step ev False self ch = Inr s" "state s = None" "quiet s"
    using step_blank [of ch self ev] by auto
  with Cons show ?case by auto
qed

lemma scan_slashes:
  assumes "state self = None" and "quiet self"
  shows "\<exists>s. scan ev False self ''//'' = Inr s \<and> state s = Some T_comment \<and> quiet s"
  using assms
  by (cases "is_slash self")
     (simp_all add: step_def dispatch_def in_none_def end_of_body_def idle_def quiet_def
        is_whitespace_def)

lemma scan_hash_col1:
  assumes "state self = None" and "quiet self" and "self_col self = 0"
  shows "\<exists>s. scan ev False self ''#'' = Inr s \<and> state s = Some T_comment \<and> quiet s"
  using assms
  by (simp add: step_def dispatch_def in_none_def end_of_body_def idle_def quiet_def
        is_whitespace_def)

lemma step_in_comment:
  assumes "ch \<noteq> NEW_LINE" and "ch \<noteq> SEMICOLON" and "state self = Some T_comment"
    and "quiet self"
  shows "\<exists>s. step ev False self ch = Inr s \<and> state s = Some T_comment \<and> quiet s"
  using assms
  by (auto simp: step_def dispatch_def end_of_body_def idle_def quiet_def Let_def)

lemma scan_in_comment:
  "NEW_LINE \<notin> set cs \<Longrightarrow> SEMICOLON \<notin> set cs \<Longrightarrow> state self = Some T_comment \<Longrightarrow> quiet self
   \<Longrightarrow> \<exists>s. scan ev False self cs = Inr s \<and> quiet s"
proof (induction cs arbitrary: self)
  case Nil
  then show ?case by simp
next
  case (Cons ch cs)
  then obtain s where "step ev False self ch = Inr s" "state s = Some T_comment" "quiet s"
    using step_in_comment [of ch self ev] by auto
  with Cons show ?case by auto
qed

lemma step_line_break:
  assumes "quiet self"
  shows "\<exists>s. step ev False self NEW_LINE = Inr s \<and> state s = None \<and> quiet s \<and> self_col s = 0"
  using assms
  by (auto simp: step_def on_new_line_def idle_def quiet_def Let_def)

lemma scan_line:
  assumes nl: "NEW_LINE \<notin> set ln" and sc: "SEMICOLON \<notin> set ln"
    and cl: "comment_line (self_col self = 0) ln"
    and st: "state self = None" and q: "quiet self"
  shows "\<exists>s. scan ev False self ln = Inr s \<and> quiet s"
proof -
  let ?ws = "takeWhile is_whitespace ln" and ?r = "dropWhile is_whitespace ln"
  have ln: "ln = ?ws @ ?r" by simp
  have ws: "\<forall>ch \<in> set ?ws. is_whitespace ch \<and> ch \<noteq> NEW_LINE"
    using nl by (auto dest: set_takeWhileD)
  have r: "NEW_LINE \<notin> set ?r" "SEMICOLON \<notin> set ?r"
    using nl sc by (auto dest: set_dropWhileD)
  obtain s1 where s1: "scan ev False self ?ws = Inr s1" "state s1 = None" "quiet s1"
    using scan_blank [OF ws st q] by blast
  from cl consider (blank) "?r = []" | (slashes) "take 2 ?r = ''//''"
    | (hash) "self_col self = 0" "take 1 ln = ''#''"
    by (auto simp: comment_line_def)
  then show ?thesis
  proof cases
    case blank
    with s1 ln show ?thesis by (metis append_Nil2)
  next
    case slashes
    then obtain r' where r': "?r = ''//'' @ r'"
      by (metis append_take_drop_id)
    obtain s2 where s2: "scan ev False s1 ''//'' = Inr s2" "state s2 = Some T_comment" "quiet s2"
      using scan_slashes [OF s1(2,3)] by blast
    have "NEW_LINE \<notin> set r'" "SEMICOLON \<notin> set r'" using r r' by auto
    then obtain s3 where s3: "scan ev False s2 r' = Inr s3" "quiet s3"
      using scan_in_comment [of r' s2 ev] s2 by blast
    have "scan ev False self (?ws @ ''//'' @ r') = Inr s3"
      using s1 s2 s3 by (simp only: scan_append) simp
    with ln r' s3 show ?thesis by metis
  next
    case hash
    then obtain r' where r': "ln = ''#'' @ r'"
      by (metis append_take_drop_id)
    obtain s2 where s2: "scan ev False self ''#'' = Inr s2" "state s2 = Some T_comment" "quiet s2"
      using scan_hash_col1 [OF st q hash(1)] by blast
    have "NEW_LINE \<notin> set r'" "SEMICOLON \<notin> set r'" using nl sc r' by auto
    then obtain s3 where s3: "scan ev False s2 r' = Inr s3" "quiet s3"
      using scan_in_comment [of r' s2 ev] s2 by blast
    have "scan ev False self (''#'' @ r') = Inr s3"
      using s2 s3 by (simp only: scan_append) simp
    with r' s3 show ?thesis by metis
  qed
qed

lemma scan_lines:
  "\<forall>ln \<in> set lns. NEW_LINE \<notin> set ln \<and> SEMICOLON \<notin> set ln \<and> comment_line True ln
   \<Longrightarrow> quiet self
   \<Longrightarrow> \<exists>s. scan ev False self (concat (map ((#) NEW_LINE) lns)) = Inr s \<and> quiet s"
proof (induction lns arbitrary: self)
  case Nil
  then show ?case by simp
next
  case (Cons ln lns)
  obtain s1 where s1: "step ev False self NEW_LINE = Inr s1" "state s1 = None" "quiet s1"
      "self_col s1 = 0"
    using step_line_break [OF Cons.prems(2)] by blast
  have "comment_line (self_col s1 = 0) ln" using Cons.prems(1) s1(4) by simp
  then obtain s2 where s2: "scan ev False s1 ln = Inr s2" "quiet s2"
    using scan_line [of ln s1 ev] Cons.prems(1) s1 by auto
  obtain s3 where s3: "scan ev False s2 (concat (map ((#) NEW_LINE) lns)) = Inr s3" "quiet s3"
    using Cons.IH [of s2] Cons.prems(1) s2(2) by auto
  have "scan ev False self (NEW_LINE # ln @ concat (map ((#) NEW_LINE) lns)) = Inr s3"
    using s1 s2 s3 by (simp add: scan_append)
  with s3 show ?case by auto
qed

lemma comment_only_index_error:
  assumes "SEMICOLON \<notin> set s" and "comment_only c s"
  shows "parse ev self s l c False = Inl IndexError"
proof -
  obtain first others where sp: "split_on NEW_LINE s = first # others"
    using split_on_not_Nil [of NEW_LINE s] by (cases "split_on NEW_LINE s") auto
  have s: "s = first @ concat (map ((#) NEW_LINE) others)"
    using split_on_join [of NEW_LINE s] sp by simp
  have lines: "\<forall>ln \<in> set (first # others). NEW_LINE \<notin> set ln \<and> SEMICOLON \<notin> set ln"
    using split_on_no_sep [of _ NEW_LINE s] split_on_subset [of _ NEW_LINE s] assms(1) sp
    by (metis subsetD)
  have cl: "comment_line (c = 1) first" "\<forall>ln \<in> set others. comment_line True ln"
    using assms(2) sp by (simp_all add: comment_only_def)
  let ?s0 = "reset self l c"
  have q0: "state ?s0 = None" "quiet ?s0" "(self_col ?s0 = 0) = (c = 1)"
    by (auto simp: reset_def quiet_def idle_def)
  obtain s1 where s1: "scan ev False ?s0 first = Inr s1" "quiet s1"
    using scan_line [of first ?s0 ev] lines cl(1) q0 by auto
  obtain s2 where s2: "scan ev False s1 (concat (map ((#) NEW_LINE) others)) = Inr s2" "quiet s2"
    using scan_lines [of others s1 ev] lines cl(2) s1(2) by auto
  have "scan ev False ?s0 s = Inr s2"
    using s1 s2 by (subst s) (simp add: scan_append)
  moreover have "idle s2" using s2(2) by (simp add: quiet_def)
  ultimately show ?thesis by (rule idle_end)
qed

subsection \<open>The pattern of a class\<close>

lemma name_char_not_space: "name_char ch \<Longrightarrow> \<not> regex_space ch"
  by (auto simp: name_char_def regex_word_def regex_space_def Let_def)

lemma curly_not_name: "\<not> name_char L_CURLY" "\<not> regex_space L_CURLY"
  by (simp_all add: name_char_def regex_word_def regex_space_def)

lemma match_class_pattern:
  assumes s: "s = ''class'' @ ws1 @ name @ ws2 @ L_CURLY # r"
    and ws1: "\<forall>ch \<in> set ws1. regex_space ch"
    and name: "name \<noteq> []" "\<forall>ch \<in> set name. name_char ch"
    and ws2: "\<forall>ch \<in> set ws2. regex_space ch"
  shows "match_class mb s =
           (case mb (L_CURLY # r) of
              None \<Rightarrow> None
            | Some (class_content, rest) \<Rightarrow> Some (name, class_content, rest))"
proof -
  obtain n ns where n: "name = n # ns" using name(1) by (cases name) auto
  have nn: "\<not> regex_space n" using name(2) n name_char_not_space by auto
  have 1: "dropWhile regex_space (drop 5 s) = name @ ws2 @ L_CURLY # r"
    using ws1 nn by (simp add: s n)
  have 2: "takeWhile name_char (ws2 @ L_CURLY # r) = []"
    using ws2 name_char_not_space curly_not_name by (cases ws2) auto
  have 3: "dropWhile name_char (ws2 @ L_CURLY # r) = ws2 @ L_CURLY # r"
    using ws2 name_char_not_space curly_not_name by (cases ws2) auto
  have 4: "takeWhile name_char (name @ ws2 @ L_CURLY # r) = name"
    using name(2) 2 by simp
  have 5: "dropWhile name_char (name @ ws2 @ L_CURLY # r) = ws2 @ L_CURLY # r"
    using name(2) 3 by simp
  have 6: "dropWhile regex_space (ws2 @ L_CURLY # r) = L_CURLY # r"
    using ws2 curly_not_name by simp
  have 7: "startswith s ''class''" by (simp add: s startswith_def)
  show ?thesis
    unfolding match_class_def Let_def 1 4 5 6 using 7 name(1) by simp
qed

lemma dropWhile_same_length:
  "length (dropWhile P xs) = length xs \<Longrightarrow> dropWhile P xs = xs"
proof -
  assume "length (dropWhile P xs) = length xs"
  moreover have "length (takeWhile P xs) + length (dropWhile P xs) = length xs"
    by (metis length_append takeWhile_dropWhile_id)
  ultimately have "takeWhile P xs = []" by simp
  then show ?thesis by (metis append_Nil takeWhile_dropWhile_id)
qed

lemma strip_unchanged:
  "strip s = s \<longleftrightarrow> s = [] \<or> (\<not> is_whitespace (hd s) \<and> \<not> is_whitespace (last s))"
proof (cases "s = []")
  case True
  then show ?thesis by (simp add: strip_def)
next
  case False
  show ?thesis
  proof
    assume a: "strip s = s"
    have "length (strip s) \<le> length (dropWhile is_whitespace s)"
      using length_dropWhile_le [of is_whitespace "rev (dropWhile is_whitespace s)"]
      by (simp add: strip_def)
    with a have "length (dropWhile is_whitespace s) = length s"
      using length_dropWhile_le [of is_whitespace s] by simp
    then have 1: "dropWhile is_whitespace s = s" by (rule dropWhile_same_length)
    with a have "dropWhile is_whitespace (rev s) = rev s"
      by (simp add: strip_def) (metis rev_rev_ident)
    with 1 False show "s = [] \<or> (\<not> is_whitespace (hd s) \<and> \<not> is_whitespace (last s))"
      by (simp add: dropWhile_eq_self_iff hd_rev)
  next
    assume "s = [] \<or> (\<not> is_whitespace (hd s) \<and> \<not> is_whitespace (last s))"
    with False have "dropWhile is_whitespace s = s" "dropWhile is_whitespace (rev s) = rev s"
      by (simp_all add: dropWhile_eq_self_iff hd_rev)
    then show "strip s = s" by (simp add: strip_def)
  qed
qed

lemma match_class_shape:
  assumes only: "\<forall>t. mb t \<noteq> None \<longrightarrow> (\<exists>r. t = L_CURLY # r)"
    and m: "match_class mb s = Some (name, content, rest)"
  shows "\<exists>ws1 ws2 r. s = ''class'' @ ws1 @ name @ ws2 @ L_CURLY # r
           \<and> (\<forall>ch \<in> set ws1. regex_space ch) \<and> name \<noteq> [] \<and> (\<forall>ch \<in> set name. name_char ch)
           \<and> (\<forall>ch \<in> set ws2. regex_space ch) \<and> mb (L_CURLY # r) = Some (content, rest)"
proof -
  let ?t = "drop 5 s"
  let ?ws1 = "takeWhile regex_space ?t" and ?r1 = "dropWhile regex_space ?t"
  let ?r1' = "dropWhile name_char ?r1"
  let ?ws2 = "takeWhile regex_space ?r1'" and ?r2 = "dropWhile regex_space ?r1'"
  from m have sw: "startswith s ''class''"
    by (auto simp: match_class_def split: if_splits)
  with m have nm: "takeWhile name_char ?r1 \<noteq> []" and name: "name = takeWhile name_char ?r1"
    and mb: "mb ?r2 = Some (content, rest)"
    by (auto simp: match_class_def Let_def split: if_splits option.splits)
  from only mb obtain r where r: "?r2 = L_CURLY # r" by (metis option.distinct(1))
  have len: "length ''class'' = 5" by simp
  from sw have "take 5 s = ''class''" unfolding startswith_def len .
  then have "s = ''class'' @ ?t" by (metis append_take_drop_id)
  also have "?t = ?ws1 @ ?r1" by simp
  also have "?r1 = name @ ?r1'" by (simp add: name)
  also have "?r1' = ?ws2 @ ?r2" by simp
  finally have "s = ''class'' @ ?ws1 @ name @ ?ws2 @ L_CURLY # r" by (simp only: r)
  moreover have "\<forall>ch \<in> set ?ws1. regex_space ch" "\<forall>ch \<in> set ?ws2. regex_space ch"
    "\<forall>ch \<in> set name. name_char ch"
    by (auto simp: name dest: set_takeWhileD)
  ultimately show ?thesis using nm name mb r by metis
qed

lemma match_bracket_at_curly: "\<forall>t. match_bracket t \<noteq> None \<longrightarrow> (\<exists>r. t = L_CURLY # r)"
  by (auto simp: match_bracket_def split: list.splits if_splits)

lemma no_match_no_shape:
  assumes "match_class mb s = None"
  shows "\<not> (\<exists>ws1 name ws2 r.
              s = ''class'' @ ws1 @ name @ ws2 @ L_CURLY # r
              \<and> (\<forall>ch \<in> set ws1. regex_space ch)
              \<and> name \<noteq> [] \<and> (\<forall>ch \<in> set name. name_char ch)
              \<and> (\<forall>ch \<in> set ws2. regex_space ch)
              \<and> mb (L_CURLY # r) \<noteq> None)"
proof
  assume "\<exists>ws1 name ws2 r.
              s = ''class'' @ ws1 @ name @ ws2 @ L_CURLY # r
              \<and> (\<forall>ch \<in> set ws1. regex_space ch)
              \<and> name \<noteq> [] \<and> (\<forall>ch \<in> set name. name_char ch)
              \<and> (\<forall>ch \<in> set ws2. regex_space ch)
              \<and> mb (L_CURLY # r) \<noteq> None"
  then obtain ws1 name ws2 r where
    sh: "s = ''class'' @ ws1 @ name @ ws2 @ L_CURLY # r" "\<forall>ch \<in> set ws1. regex_space ch"
      "name \<noteq> []" "\<forall>ch \<in> set name. name_char ch" "\<forall>ch \<in> set ws2. regex_space ch"
    and mb: "mb (L_CURLY # r) \<noteq> None"
    by blast
  from match_class_pattern [OF sh, of mb] mb assms show False
    by (auto split: option.splits)
qed

section \<open>The claims\<close>

text \<open>
  C1. The claim is that every bracket token opens with its bracket, closes with the
  matching one and is balanced in between. The code breaks it where two slashes stand
  inside a bracket group: the comment takes the place of the open bracket state, the
  text read so far stays in the buffer, and the next bracket group is appended to it.
  The source \<^verbatim>\<open>(a//\<close>, a line break, \<^verbatim>\<open>();\<close> is accepted and gives one round
  bracket token with the text \<^verbatim>\<open>(a()\<close>, which has two opening brackets and one
  closing bracket; with \<^verbatim>\<open>[//\<close> on the first line and \<^verbatim>\<open>(a);\<close> on the second,
  the round bracket token is \<^verbatim>\<open>[(a)\<close>, whose first character is not its opening
  bracket.
\<close>

theorem unbalanced_bracket_token:
  "map_sum id fst (Tokenizer_init ev (''(a//'' @ [NEW_LINE] @ ''();'') path 1 1 None)
     = Inr (Program [[Token (Some T_paren_round) 2 1 ''(a()'']])
   \<and> count_list ''(a()'' L_ROUND = 2 \<and> count_list ''(a()'' R_ROUND = 1
   \<and> map_sum id fst (Tokenizer_init ev (''[//'' @ [NEW_LINE] @ ''(a);'') path 1 1 None)
     = Inr (Program [[Token (Some T_paren_round) 2 1 ''[(a)'']])"
  by code_simp

text \<open>
  C2. The claim is that, without a semicolon expected, the statement is flushed and
  returned at the end of the input whatever its last token is. The code flushes only
  inside the test for an open keyword: when the last token is a bracket group, a comma
  or a string literal, the statement stays in the buffer and the check that follows
  raises the exception that asks for a semicolon. With a keyword last, the statement
  is returned.
\<close>

theorem no_flush_after_other_tokens:
  "map_sum id fst (parse ev (new_tokenizer ''f(x)'' ''f(x)'' path) ''f(x)'' 1 1 False)
     = Inl (JMCSyntaxException path Expected_semicolon 1 (Some 5) ''f(x)'')
   \<and> map_sum id fst (parse ev (new_tokenizer ''a,'' ''a,'' path) ''a,'' 1 1 False)
     = Inl (JMCSyntaxException path Expected_semicolon 1 (Some 3) ''a,'')
   \<and> map_sum id fst
       (parse unquote (new_tokenizer ''a \"b\"'' ''a \"b\"'' path) ''a \"b\"'' 1 1 False)
     = Inl (JMCSyntaxException path Expected_semicolon 1 (Some 6) ''a \"b\"'')
   \<and> map_sum id fst (parse ev (new_tokenizer ''a b'' ''a b'' path) ''a b'' 1 1 False)
     = Inr (Statement [Token (Some T_keyword) 1 1 ''a'', Token (Some T_keyword) 1 3 ''b''])"
  by code_simp

text \<open>
  C3. The claim is that the arguments of \<^verbatim>\<open>run(() => { say hi; });\<close> are one
  function token with the text between the braces. The tokenizer gives the keyword and
  the round bracket token, but \<^verbatim>\<open>parse_func_args\<close> raises on the semicolon inside
  the braces, which the loop refuses before it looks at its state. Without that
  semicolon the call still raises: the statement ends with the brace group and is not
  flushed (the defect of C2).
\<close>

theorem arrow_function_rejected:
  "map_sum id fst (Tokenizer_init ev ''run(() => { say hi; });'' path 1 1 None)
     = Inr (Program [[Token (Some T_keyword) 1 1 ''run'',
                      Token (Some T_paren_round) 1 4 ''(() => { say hi; })'']])
   \<and> parse_func_args ev
       (snd (projr (Tokenizer_init ev ''run(() => { say hi; });'' path 1 1 None)))
       (Token (Some T_paren_round) 1 4 ''(() => { say hi; })'')
     = Inl (JMCSyntaxException path Unexpected_semicolon 1 (Some 18) ''run(() => { say hi'')
   \<and> map_sum id fst (Tokenizer_init ev ''run(() => { say hi });'' path 1 1 None)
     = Inr (Program [[Token (Some T_keyword) 1 1 ''run'',
                      Token (Some T_paren_round) 1 4 ''(() => { say hi })'']])
   \<and> parse_func_args ev
       (snd (projr (Tokenizer_init ev ''run(() => { say hi });'' path 1 1 None)))
       (Token (Some T_paren_round) 1 4 ''(() => { say hi })'')
     = Inl (JMCSyntaxException path Expected_semicolon 1 (Some 20) ''run(() => { say hi }'')"
  by code_simp

text \<open>
  C4. Every token that the tokenizer returns, in a program or in a single statement,
  and every token that the argument parser returns, as a positional argument or as
  the value of a keyword, has a length field equal to the length of its text plus 2
  when its type is the string literal, and equal to the length of its text otherwise.
\<close>

theorem length_field:
  "(parse ev self s l c m = Inr (r, self') \<longrightarrow>
      (\<forall>t \<in> set (tokens_of r).
         length_tok t =
           (if token_type t = Some T_string then int (length (string t)) + 2
            else int (length (string t)))))
   \<and> (parse_func_args ev self tok = Inr ((as, kws), self'') \<longrightarrow>
      (\<forall>t \<in> set as \<union> snd ` set kws.
         length_tok t =
           (if token_type t = Some T_string then int (length (string t)) + 2
            else int (length (string t)))))"
  using parse_ok [of ev self s l c m r self'] parse_func_args_ok [of ev self tok as kws self'']
  by (simp add: length_ok_def)

theorem length_field_witness:
  "map_sum id fst
     (parse unquote (new_tokenizer ''say \"hi\";'' ''say \"hi\";'' ''f'') ''say \"hi\";'' 1 1 True)
     = Inr (Program [[Token (Some T_keyword) 1 1 ''say'', Token (Some T_string) 1 5 ''hi'']])
   \<and> length_tok (Token (Some T_keyword) 1 1 ''say'') = 3
   \<and> length_tok (Token (Some T_string) 1 5 ''hi'') = 4
   \<and> map_sum id fst
       (parse_func_args unquote (new_tokenizer ''say \"hi\";'' ''say \"hi\";'' ''f'')
          (Token (Some T_paren_round) 1 1 ''(\"hi\", x)''))
     = Inr ([Token (Some T_string) 1 1 ''hi'', Token (Some T_keyword) 1 7 ''x''], [])"
  using length_field [of unquote "new_tokenizer ''say \"hi\";'' ''say \"hi\";'' ''f''"
      "''say \"hi\";''" 1 1 True
      "Program [[Token (Some T_keyword) 1 1 ''say'', Token (Some T_string) 1 5 ''hi'']]"
      "snd (projr (parse unquote (new_tokenizer ''say \"hi\";'' ''say \"hi\";'' ''f'')
                     ''say \"hi\";'' 1 1 True))"
      "Token (Some T_paren_round) 1 1 ''(\"hi\", x)''"
      "[Token (Some T_string) 1 1 ''hi'', Token (Some T_keyword) 1 7 ''x'']" "[]"
      "snd (projr (parse_func_args unquote (new_tokenizer ''say \"hi\";'' ''say \"hi\";'' ''f'')
                     (Token (Some T_paren_round) 1 1 ''(\"hi\", x)'')))"]
  by code_simp

text \<open>
  C5. When the trimmed line is \<^verbatim>\<open>class\<close>, white space, a name of one or more
  characters of \<^verbatim>\<open>[\w\._]\<close>, white space and a bracket group that the bracket
  pattern matches with the content \<open>content\<close>, followed by \<open>rest\<close>, the expander calls
  the function-level expander once, on the data pack as it is, with \<open>content\<close> and the
  prefix followed by the name and a dot. If that call raises, so does the expander;
  otherwise the expander goes on, from the data pack the call left, with the returned
  text followed by \<open>rest\<close> and with the prefix it was given.
\<close>

theorem class_expansion:
  assumes "strip line0 = ''class'' @ ws1 @ name @ ws2 @ L_CURLY # r"
    and "\<forall>ch \<in> set ws1. regex_space ch"
    and "name \<noteq> []" and "\<forall>ch \<in> set name. name_char ch"
    and "\<forall>ch \<in> set ws2. regex_space ch"
    and "mb (L_CURLY # r) = Some (content, rest)"
  shows "process_class process_function mb line0 prefix w =
           (case process_function content (prefix @ name @ ''.'') w of
              Inl e \<Rightarrow> Some (Inl e)
            | Inr (remaining_line, w1) \<Rightarrow>
                process_class process_function mb (remaining_line @ rest) prefix w1)"
proof -
  have "match_class mb (strip line0) = Some (name, content, rest)"
    using match_class_pattern [OF assms(1-5), of mb] assms(6) by simp
  then show ?thesis
    by (subst process_class.simps) simp
qed

theorem class_expansion_witness:
  "strip '' class A.b  { f } g '' = ''class'' @ '' '' @ ''A.b'' @ ''  '' @ L_CURLY # '' f } g''
   \<and> regex_space CHR '' ''
   \<and> name_char CHR ''A'' \<and> name_char CHR ''.'' \<and> name_char CHR ''b''
   \<and> match_bracket (L_CURLY # '' f } g'') = Some ('' f '', '' g'')
   \<and> record_call '' f '' ''p.A.b.'' [] = Inr ('' f '', [('' f '', ''p.A.b.'')])
   \<and> process_class record_call match_bracket '' class A.b  { f } g '' ''p.'' []
       = process_class record_call match_bracket ('' f '' @ '' g'') ''p.''
           [('' f '', ''p.A.b.'')]
   \<and> process_class record_call match_bracket '' class A.b  { f } g '' ''p.'' []
       = Some (Inr (''f  g'', [('' f '', ''p.A.b.'')]))"
  using class_expansion [of "'' class A.b  { f } g ''" "'' ''" "''A.b''" "''  ''" "'' f } g''"
      match_bracket "'' f ''" "'' g''" record_call "''p.''" "[]"]
  by code_simp

text \<open>
  C6, as stated: on a line that matches no class, the expander returns its input
  unchanged, also when the input has white space at its ends. This fails: the
  expander trims the line before it looks for a class and returns the trimmed line.
\<close>

theorem trimmed_not_unchanged:
  "match_class match_bracket (strip '' foo '') = None
   \<and> process_class record_call match_bracket '' foo '' [] [] = Some (Inr (''foo'', []))
   \<and> ''foo'' \<noteq> '' foo ''"
  by code_simp

text \<open>
  C6, amended: on a line whose trimmed form is not of the shape \<^verbatim>\<open>class\<close>, white
  space, a name of one or more characters of \<^verbatim>\<open>[\w\._]\<close>, white space and a
  bracket group that the bracket pattern matches, the expander returns the line
  trimmed of the white space at its two ends and does not call the function-level
  expander; the result is the input itself exactly when the input is empty or neither
  begins nor ends with white space. The bracket pattern, a parameter, is taken to
  match only where the text opens with a curly bracket.
\<close>

theorem no_class:
  assumes "\<forall>t. mb t \<noteq> None \<longrightarrow> (\<exists>r. t = L_CURLY # r)"
    and "\<not> (\<exists>ws1 name ws2 r.
              strip line0 = ''class'' @ ws1 @ name @ ws2 @ L_CURLY # r
              \<and> (\<forall>ch \<in> set ws1. regex_space ch)
              \<and> name \<noteq> [] \<and> (\<forall>ch \<in> set name. name_char ch)
              \<and> (\<forall>ch \<in> set ws2. regex_space ch)
              \<and> mb (L_CURLY # r) \<noteq> None)"
  shows "process_class process_function mb line0 prefix w = Some (Inr (strip line0, w))
     \<and> (strip line0 = line0
          \<longleftrightarrow> line0 = [] \<or> (\<not> is_whitespace (hd line0) \<and> \<not> is_whitespace (last line0)))"
proof -
  have "match_class mb (strip line0) = None"
  proof (rule ccontr)
    assume "match_class mb (strip line0) \<noteq> None"
    then obtain name content rest where
      "match_class mb (strip line0) = Some (name, content, rest)" by auto
    from match_class_shape [OF assms(1) this] assms(2) show False
      by (metis option.distinct(1))
  qed
  then show ?thesis
    using strip_unchanged [of line0] by (subst process_class.simps) simp
qed

theorem no_class_witness:
  "match_class match_bracket (strip '' foo '') = None
   \<and> process_class record_call match_bracket '' foo '' ''p.'' [] = Some (Inr (''foo'', []))
   \<and> strip '' foo '' = ''foo''
   \<and> match_class match_bracket (strip ''class {x}'') = None
   \<and> process_class record_call match_bracket ''class {x}'' ''p.'' []
       = Some (Inr (''class {x}'', []))
   \<and> strip ''class {x}'' = ''class {x}''"
proof -
  have 1: "match_class match_bracket (strip '' foo '') = None" by code_simp
  have 2: "match_class match_bracket (strip ''class {x}'') = None" by code_simp
  show ?thesis
    using 1 2
      no_class [OF match_bracket_at_curly no_match_no_shape [OF 1], of record_call "''p.''" "[]"]
      no_class [OF match_bracket_at_curly no_match_no_shape [OF 2], of record_call "''p.''" "[]"]
    by (simp add: strip_def is_whitespace_def)
qed

text \<open>
  C7. The claim is that committing a keyword with an empty key raises the syntax
  exception for the empty key. \<^verbatim>\<open>add_key\<close> has that check, but reads \<^verbatim>\<open>key[0]\<close>
  before it: on the arguments \<^verbatim>\<open>(=bar)\<close> the key is empty and the call raises
  \<^verbatim>\<open>IndexError\<close>.
\<close>

theorem empty_key_index_error:
  "map_sum id fst (Tokenizer_init ev ''run(=bar);'' path 1 1 None)
     = Inr (Program [[Token (Some T_keyword) 1 1 ''run'',
                      Token (Some T_paren_round) 1 4 ''(=bar)'']])
   \<and> parse_func_args ev (snd (projr (Tokenizer_init ev ''run(=bar);'' path 1 1 None)))
       (Token (Some T_paren_round) 1 4 ''(=bar)'')
     = Inl IndexError"
  by code_simp

text \<open>
  C8. The claim is that a keyword token with more than one equal sign raises the
  exception for a duplicated equal sign on every path. A fresh token does
  (\<^verbatim>\<open>a==b\<close>) and so does a token after a staged key (\<^verbatim>\<open>k= a=b\<close>), but after a
  staged positional value the token \<^verbatim>\<open>=b=c\<close> is split at its first character only:
  \<^verbatim>\<open>(a =b=c)\<close> returns the keyword \<^verbatim>\<open>a\<close> with the value \<^verbatim>\<open>b=c\<close>.
\<close>

theorem second_equal_sign_accepted:
  "map_sum id fst (Tokenizer_init ev ''run(a =b=c);'' path 1 1 None)
     = Inr (Program [[Token (Some T_keyword) 1 1 ''run'',
                      Token (Some T_paren_round) 1 4 ''(a =b=c)'']])
   \<and> map_sum id fst
       (parse_func_args ev (snd (projr (Tokenizer_init ev ''run(a =b=c);'' path 1 1 None)))
          (Token (Some T_paren_round) 1 4 ''(a =b=c)''))
     = Inr ([], [(''a'', Token (Some T_keyword) 1 6 ''b=c'')])
   \<and> parse_func_args ev (snd (projr (Tokenizer_init ev ''run(a==b);'' path 1 1 None)))
       (Token (Some T_paren_round) 1 4 ''(a==b)'')
     = Inl (JMCSyntaxException path Duplicated_equal_sign 1 (Some 7) ''run(a=='')
   \<and> parse_func_args ev (snd (projr (Tokenizer_init ev ''run(k= a=b);'' path 1 1 None)))
       (Token (Some T_paren_round) 1 4 ''(k= a=b)'')
     = Inl (JMCSyntaxException path Duplicated_equal_sign 1 (Some 9) ''run(k= a='')"
  by code_simp

text \<open>
  C9. Tokenizing is deterministic. \<^verbatim>\<open>parse\<close> assigns every attribute it reads,
  apart from the source text and the file path of the object, before it reads it: two
  invocations with the same string, position and mode, on tokenizers that agree on
  these attributes and are in any state otherwise, give the same tokens, with the
  same types, positions, texts and lengths, or raise the same exception.
\<close>

theorem parse_deterministic:
  "raw_string a = raw_string b \<and> file_string a = file_string b \<and> file_path a = file_path b
   \<longrightarrow> parse ev a s l c m = parse ev b s l c m"
  by (simp add: parse_def reset_eq [of a b])

theorem parse_deterministic_witness:
  "raw_string (new_tokenizer ''a;'' ''a;'' ''f'')
     = raw_string ((new_tokenizer ''a;'' ''a;'' ''f'')
                     \<lparr>state := Some T_paren, token := ''(x'', is_slash := True\<rparr>)
   \<and> parse unquote (new_tokenizer ''a;'' ''a;'' ''f'') ''a;'' 1 1 True
     = parse unquote
         ((new_tokenizer ''a;'' ''a;'' ''f'')
            \<lparr>state := Some T_paren, token := ''(x'', is_slash := True\<rparr>) ''a;'' 1 1 True
   \<and> map_sum id fst (parse unquote (new_tokenizer ''a;'' ''a;'' ''f'') ''a;'' 1 1 True)
     = Inr (Program [[Token (Some T_keyword) 1 1 ''a'']])"
  using parse_deterministic [of "new_tokenizer ''a;'' ''a;'' ''f''"
      "(new_tokenizer ''a;'' ''a;'' ''f'')
         \<lparr>state := Some T_paren, token := ''(x'', is_slash := True\<rparr>"
      unquote "''a;''" 1 1 True]
  by code_simp

text \<open>
  C10, as stated: without a semicolon expected, every input without a token, a
  comment among them, makes \<^verbatim>\<open>parse\<close> read the first element of an empty list, so
  the call does not raise the syntax exception of the tokenizer. This fails on a
  comment with a semicolon: the loop refuses a semicolon before it looks at its state,
  and the comment \<^verbatim>\<open>// a;\<close>, which holds no token, raises the syntax exception for
  an unexpected semicolon.
\<close>

theorem comment_with_semicolon:
  "comment_only 1 ''// a;''
   \<and> parse unquote (new_tokenizer ''// a;'' ''// a;'' ''f'') ''// a;'' 1 1 False
     = Inl (JMCSyntaxException ''f'' Unexpected_semicolon 1 (Some 5) ''// a;'')"
  by code_simp

text \<open>
  C10, amended: without a semicolon expected, an input without a token and without a
  semicolon makes \<^verbatim>\<open>parse\<close> read the first element of an empty list of statements:
  it raises \<^verbatim>\<open>IndexError\<close>, which is neither an empty statement nor the syntax
  exception of the tokenizer. This holds for every input without a semicolon whose
  lines are white space or comments (white space, then two slashes, or a hash in
  column 1), on one line or on several; in particular for every input of white space
  only, the empty input among them, and for every comment on one line; and so for
  \<^verbatim>\<open>parse_func_args\<close> on the round bracket token \<^verbatim>\<open>()\<close> of a call without
  arguments.
\<close>

theorem no_tokens:
  "(SEMICOLON \<notin> set s \<and> comment_only c s \<longrightarrow> parse ev self s l c False = Inl IndexError)
   \<and> ((\<forall>ch \<in> set ws. is_whitespace ch) \<longrightarrow> parse ev self ws l c False = Inl IndexError)
   \<and> (NEW_LINE \<notin> set cs \<and> SEMICOLON \<notin> set cs \<longrightarrow>
        parse ev self (''//'' @ cs) l c False = Inl IndexError
        \<and> parse ev self (''#'' @ cs) l 1 False = Inl IndexError)
   \<and> parse_func_args ev self (Token (Some T_paren_round) l c ''()'') = Inl IndexError"
proof (intro conjI impI)
  assume "SEMICOLON \<notin> set s \<and> comment_only c s"
  then show "parse ev self s l c False = Inl IndexError"
    using comment_only_index_error [of s c ev self l] by simp
next
  assume "\<forall>ch \<in> set ws. is_whitespace ch"
  then obtain s where "scan ev False (reset self l c) ws = Inr s" "idle s"
    using scan_whitespace [of ws "reset self l c" ev] by (auto simp: reset_def idle_def)
  then show "parse ev self ws l c False = Inl IndexError" by (rule idle_end)
next
  assume a: "NEW_LINE \<notin> set cs \<and> SEMICOLON \<notin> set cs"
  obtain s0 where 0: "scan ev False (reset self l c) ''//'' = Inr s0"
      "state s0 = Some T_comment" "idle s0"
    using scan_two_slashes by blast
  obtain s where "scan ev False s0 cs = Inr s" "idle s"
    using scan_comment [of cs s0 ev] a 0 by blast
  with 0 have "scan ev False (reset self l c) (''//'' @ cs) = Inr s"
    by (simp only: scan_append) simp
  then show "parse ev self (''//'' @ cs) l c False = Inl IndexError"
    using \<open>idle s\<close> by (rule idle_end)
next
  assume a: "NEW_LINE \<notin> set cs \<and> SEMICOLON \<notin> set cs"
  obtain s0 where 0: "scan ev False (reset self l 1) ''#'' = Inr s0"
      "state s0 = Some T_comment" "idle s0"
    using scan_hash by blast
  obtain s where "scan ev False s0 cs = Inr s" "idle s"
    using scan_comment [of cs s0 ev] a 0 by blast
  with 0 have "scan ev False (reset self l 1) (''#'' @ cs) = Inr s"
    by (simp only: scan_append) simp
  then show "parse ev self (''#'' @ cs) l 1 False = Inl IndexError"
    using \<open>idle s\<close> by (rule idle_end)
next
  have "parse ev self [] l c False = Inl IndexError"
    by (rule idle_end [of _ _ _ _ _ "reset self l c"]) (simp_all add: idle_def reset_def)
  then show "parse_func_args ev self (Token (Some T_paren_round) l c ''()'') = Inl IndexError"
    by (simp add: parse_func_args_def Token_def)
qed

theorem no_tokens_witness:
  "SEMICOLON \<notin> set (''  // a'' @ [NEW_LINE] @ ''# b /'' @ [NEW_LINE, NEW_LINE, CHR 0x09] @ ''//c'')
   \<and> comment_only 1 (''  // a'' @ [NEW_LINE] @ ''# b /'' @ [NEW_LINE, NEW_LINE, CHR 0x09] @ ''//c'')
   \<and> parse unquote (new_tokenizer [] [] ''f'')
       (''  // a'' @ [NEW_LINE] @ ''# b /'' @ [NEW_LINE, NEW_LINE, CHR 0x09] @ ''//c'') 1 1 False
     = Inl IndexError
   \<and> is_whitespace CHR '' '' \<and> is_whitespace NEW_LINE
   \<and> parse unquote (new_tokenizer [] [] ''f'') ('' '' @ [NEW_LINE] @ ''  '') 1 1 False
     = Inl IndexError
   \<and> NEW_LINE \<notin> set '' note'' \<and> SEMICOLON \<notin> set '' note''
   \<and> parse unquote (new_tokenizer [] [] ''f'') ''// note'' 1 1 False = Inl IndexError
   \<and> parse unquote (new_tokenizer [] [] ''f'') ''# note'' 1 1 False = Inl IndexError"
  using no_tokens [of "''  // a'' @ [NEW_LINE] @ ''# b /'' @ [NEW_LINE, NEW_LINE, CHR 0x09] @ ''//c''"
      1 unquote "new_tokenizer [] [] ''f''" 1 "'' '' @ [NEW_LINE] @ ''  ''" "'' note''"]
  by code_simp

end
